theory Spec2Isabelle
  imports Complex_Main
begin

section \<open>JavaScript values\<close>

text \<open>
  A JavaScript number is modelled as an exact rational or one of the three special
  values of IEEE arithmetic. Rounding of finite results to the nearest double and
  overflow of finite results are not modelled; every constant and every rounding
  threshold used below is far from the places where they would matter.
\<close>

datatype jsnum = Fin rat | PInf | NInf | NaN

datatype jsval =
  JUndefined | JNull | JBool bool | JNum jsnum | JStr string | JObj "(string \<times> jsval) list"

fun jneg :: "jsnum \<Rightarrow> jsnum" where
  "jneg (Fin x) = Fin (- x)"
| "jneg PInf = NInf"
| "jneg NInf = PInf"
| "jneg NaN = NaN"

fun jadd :: "jsnum \<Rightarrow> jsnum \<Rightarrow> jsnum" where
  "jadd NaN _ = NaN"
| "jadd _ NaN = NaN"
| "jadd (Fin x) (Fin y) = Fin (x + y)"
| "jadd PInf NInf = NaN"
| "jadd NInf PInf = NaN"
| "jadd PInf _ = PInf"
| "jadd _ PInf = PInf"
| "jadd NInf _ = NInf"
| "jadd _ NInf = NInf"

definition jsub :: "jsnum \<Rightarrow> jsnum \<Rightarrow> jsnum" where
  "jsub a b = jadd a (jneg b)"

text \<open>The sign of a number: \<open>-1\<close>, \<open>0\<close> or \<open>1\<close>; only used on numbers that are not NaN.\<close>

fun jsign :: "jsnum \<Rightarrow> int" where
  "jsign (Fin x) = (if x < 0 then - 1 else if x = 0 then 0 else 1)"
| "jsign PInf = 1"
| "jsign NInf = - 1"
| "jsign NaN = 0"

fun jmul :: "jsnum \<Rightarrow> jsnum \<Rightarrow> jsnum" where
  "jmul NaN _ = NaN"
| "jmul _ NaN = NaN"
| "jmul (Fin x) (Fin y) = Fin (x * y)"
| "jmul a b =
     (let s = jsign a * jsign b
      in if s = 0 then NaN else if s < 0 then NInf else PInf)"

fun jdiv_by :: "jsnum \<Rightarrow> rat \<Rightarrow> jsnum" where
  \<comment> \<open>division by a positive finite constant\<close>
  "jdiv_by (Fin x) c = Fin (x / c)"
| "jdiv_by a c = a"

fun math_round :: "jsnum \<Rightarrow> jsnum" where
  \<comment> \<open>\<open>Math.round\<close>: the nearest integer, halves towards \<open>+\<infinity>\<close>\<close>
  "math_round (Fin x) = Fin (of_int \<lfloor>x + 1 / 2\<rfloor>)"
| "math_round a = a"

fun math_max0 :: "jsnum \<Rightarrow> jsnum" where
  \<comment> \<open>\<open>Math.max(0, x)\<close>\<close>
  "math_max0 (Fin x) = Fin (max 0 x)"
| "math_max0 PInf = PInf"
| "math_max0 NInf = Fin 0"
| "math_max0 NaN = NaN"

fun truthy_num :: "jsnum \<Rightarrow> bool" where
  "truthy_num (Fin x) = (x \<noteq> 0)"
| "truthy_num NaN = False"
| "truthy_num _ = True"

text \<open>
  \<open>Number(v)\<close>. The conversion of a string to a number is the runtime's
  \<open>StringToNumber\<close>; it is taken as the parameter \<open>sn\<close>, so every statement below
  holds whatever a string converts to.
\<close>

fun Number :: "(string \<Rightarrow> jsnum) \<Rightarrow> jsval \<Rightarrow> jsnum" where
  "Number sn JUndefined = NaN"
| "Number sn JNull = Fin 0"
| "Number sn (JBool b) = Fin (if b then 1 else 0)"
| "Number sn (JNum n) = n"
| "Number sn (JStr s) = sn s"
| "Number sn (JObj kvs) = NaN"

definition num_or :: "jsnum \<Rightarrow> jsnum \<Rightarrow> jsnum" where
  \<comment> \<open>\<open>n || d\<close> on numbers\<close>
  "num_or n d = (if truthy_num n then n else d)"

fun nullish :: "jsval \<Rightarrow> bool" where
  "nullish JUndefined = True"
| "nullish JNull = True"
| "nullish _ = False"


text \<open>
  Objects are association lists with distinct keys. \<open>get_prop v k\<close> is the property read
  \<open>v.k\<close> on a value that is neither \<open>null\<close> nor \<open>undefined\<close>, for the field names
  used below (none of them is a property of a primitive's prototype); \<open>obj_put\<close>
  is an assignment to a key and \<open>spread dst src\<close> the object spread
  \<open>{...dst, ...src}\<close>.
\<close>

fun obj_get :: "(string \<times> jsval) list \<Rightarrow> string \<Rightarrow> jsval" where
  "obj_get [] k = JUndefined"
| "obj_get ((k', v) # kvs) k = (if k' = k then v else obj_get kvs k)"


fun obj_put :: "string \<Rightarrow> jsval \<Rightarrow> (string \<times> jsval) list \<Rightarrow> (string \<times> jsval) list" where
  "obj_put k v [] = [(k, v)]"
| "obj_put k v ((k', v') # kvs) = (if k' = k then (k, v) # kvs else (k', v') # obj_put k v kvs)"

fun spread :: "(string \<times> jsval) list \<Rightarrow> (string \<times> jsval) list \<Rightarrow> (string \<times> jsval) list" where
  "spread dst [] = dst"
| "spread dst ((k, v) # src) = spread (obj_put k v dst) src"

definition coalesce :: "jsval \<Rightarrow> jsval \<Rightarrow> jsval" where
  \<comment> \<open>\<open>a ?? b\<close>\<close>
  "coalesce a b = (if nullish a then b else a)"

section \<open>Target calculator (App.js: computeBMR, activityFactor, computeGoals)\<close>

record profile =
  sex :: "string option"
  weight_kg :: jsval
  height_cm :: jsval
  age :: jsval
  activity_level :: "string option"
  goal :: "string option"

definition dflt :: "jsval \<Rightarrow> jsval \<Rightarrow> jsval" where
  \<comment> \<open>a destructuring default: used when the field is \<open>undefined\<close>\<close>
  "dflt v d = (if v = JUndefined then d else v)"

text \<open>
  Strings are lists of 8-bit characters, read as the code units \<open>0\<close> to \<open>255\<close>
  (Latin-1). \<open>toLowerCase\<close> maps \<open>A\<close>-\<open>Z\<close> and the accented capitals
  \<open>192\<close>-\<open>222\<close> (without the multiplication sign \<open>215\<close>) 32 places up.
\<close>

definition to_lower_char :: "char \<Rightarrow> char" where
  "to_lower_char c =
     (let n = (of_char c :: nat)
      in if (65 \<le> n \<and> n \<le> 90) \<or> (192 \<le> n \<and> n \<le> 222 \<and> n \<noteq> 215)
         then char_of (n + 32) else c)"

definition toLowerCase :: "string \<Rightarrow> string" where
  "toLowerCase s = map to_lower_char s"

definition startsWith :: "string \<Rightarrow> string \<Rightarrow> bool" where
  "startsWith s p = (take (length p) s = p)"

definition str_or :: "string option \<Rightarrow> string \<Rightarrow> string" where
  \<comment> \<open>\<open>s || d\<close> on an optional string: the empty string is falsy\<close>
  "str_or s d = (case s of None \<Rightarrow> d | Some t \<Rightarrow> if t = [] then d else t)"

definition computeBMR :: "(string \<Rightarrow> jsnum) \<Rightarrow> profile \<Rightarrow> jsnum" where
  "computeBMR sn p =
     (let w = num_or (Number sn (dflt (weight_kg p) (JNum (Fin 70)))) (Fin 70);
          h = num_or (Number sn (dflt (height_cm p) (JNum (Fin 170)))) (Fin 170);
          a = num_or (Number sn (dflt (age p) (JNum (Fin 25)))) (Fin 25);
          base = jsub (jadd (jmul (Fin 10) w) (jmul (Fin (25 / 4)) h)) (jmul (Fin 5) a)
      in if startsWith (toLowerCase (str_or (sex p) ''male'')) ''f''
         then jsub base (Fin 161)
         else jadd base (Fin 5))"

text \<open>
  \<open>map[level] || 1.55\<close> on the five keys of the table; a level that names a member of
  \<open>Object.prototype\<close> (such as \<open>"constructor"\<close>) is outside this model.
\<close>

definition activityFactor :: "string option \<Rightarrow> rat" where
  "activityFactor level =
     (let l = (case level of None \<Rightarrow> ''moderately_active'' | Some s \<Rightarrow> s)
      in if l = ''sedentary'' then 12 / 10
         else if l = ''lightly_active'' then 1375 / 1000
         else if l = ''moderately_active'' then 155 / 100
         else if l = ''very_active'' then 1725 / 1000
         else if l = ''athlete'' then 19 / 10
         else 155 / 100)"

record macro_goals =
  mg_calories :: jsnum
  mg_protein_g :: jsnum
  mg_carbs_g :: jsnum
  mg_fats_g :: jsnum

record goals =
  bmr :: jsnum
  tdee :: jsnum
  macro_goals :: macro_goals

definition computeGoals :: "(string \<Rightarrow> jsnum) \<Rightarrow> profile \<Rightarrow> goals" where
  "computeGoals sn p =
     (let bmr0 = computeBMR sn p;
          t0 = jmul bmr0 (Fin (activityFactor (activity_level p)));
          g = (case goal p of None \<Rightarrow> ''maintenance'' | Some s \<Rightarrow> s);
          t1 = (if g = ''weight_loss'' then jmul t0 (Fin (85 / 100)) else t0);
          tdee0 = (if g = ''weight_gain'' then jmul t1 (Fin (11 / 10)) else t1);
          protein_g = math_round (jmul (num_or (Number sn (weight_kg p)) (Fin 70)) (Fin (16 / 10)));
          fats_g = math_round (jmul (num_or (Number sn (weight_kg p)) (Fin 70)) (Fin (8 / 10)));
          kcal_from_protein = jmul protein_g (Fin 4);
          kcal_from_fats = jmul fats_g (Fin 9);
          leftover = math_max0 (jsub tdee0 (jadd kcal_from_protein kcal_from_fats));
          carbs_g = math_round (jdiv_by leftover 4)
      in \<lparr> bmr = math_round bmr0,
           tdee = math_round tdee0,
           macro_goals = \<lparr> mg_calories = math_round tdee0,
                            mg_protein_g = protein_g,
                            mg_carbs_g = carbs_g,
                            mg_fats_g = fats_g \<rparr> \<rparr>)"

definition default_profile :: profile where
  "default_profile =
     \<lparr> sex = Some ''male'', weight_kg = JNum (Fin 70), height_cm = JNum (Fin 170),
       age = JNum (Fin 25), activity_level = Some ''moderately_active'',
       goal = Some ''maintenance'' \<rparr>"

definition parse_none :: "string \<Rightarrow> jsnum" where
  \<comment> \<open>a string conversion for closed examples: no string is numeric\<close>
  "parse_none s = NaN"

definition absent_profile :: profile where
  "absent_profile =
     \<lparr> sex = None, weight_kg = JUndefined, height_cm = JUndefined,
       age = JUndefined, activity_level = None, goal = None \<rparr>"


section \<open>Name normaliser (DailyLogPage.jsx: normalize)\<close>

text \<open>
  \<open>s.trim().toLowerCase().replace(/[^a-z0-9 ]/g, "").replace(/\s+/g, " ")\<close>.
  The white space of \<open>trim\<close> and of \<open>\s\<close> below code unit 256: tab, line feed,
  vertical tab, form feed, carriage return, space and no-break space.
\<close>

definition is_space :: "char \<Rightarrow> bool" where
  "is_space c = (let n = (of_char c :: nat) in (9 \<le> n \<and> n \<le> 13) \<or> n = 32 \<or> n = 160)"

definition trim :: "string \<Rightarrow> string" where
  "trim s = rev (dropWhile is_space (rev (dropWhile is_space s)))"

definition keep_char :: "char \<Rightarrow> bool" where
  \<comment> \<open>the characters of the class \<open>[a-z0-9 ]\<close>\<close>
  "keep_char c =
     (let n = (of_char c :: nat)
      in (97 \<le> n \<and> n \<le> 122) \<or> (48 \<le> n \<and> n \<le> 57) \<or> n = 32)"

definition strip_other :: "string \<Rightarrow> string" where
  "strip_other s = filter keep_char s"

function collapse_ws :: "string \<Rightarrow> string" where
  "collapse_ws [] = []"
| "collapse_ws (c # cs) =
     (if is_space c then CHR '' '' # collapse_ws (dropWhile is_space cs)
      else c # collapse_ws cs)"
  by pat_completeness auto
termination
  by (relation "measure length") (auto simp: length_dropWhile_le less_Suc_eq_le)

definition normalize :: "string \<Rightarrow> string" where
  "normalize s = collapse_ws (strip_other (toLowerCase (trim s)))"

section \<open>Log entries and analysis results\<close>

text \<open>
  A log entry as \<open>getDailyLogs\<close> returns it: the document id and the fields of the
  document. \<open>None\<close> stands for an absent field. A date key \<open>YYYY-MM-DD\<close> is represented
  by its day number (days since 1970-01-01): on well-formed keys \<open>new Date(key)\<close> is UTC
  midnight of that day, \<open>toISOString().slice(0, 10)\<close> gives the key back, and the order
  of the strings is the order of the days. Timestamps are epoch milliseconds within the
  range of a JavaScript \<open>Date\<close>. \<open>manualOverride\<close> is the flag of the specification;
  no function of the repository reads or writes it.
\<close>

record log_entry =
  entry_id :: string
  item :: "string option"
  item_name :: "string option"
  category :: "string option"
  timestamp :: "int option"
  date :: "int option"
  calories :: jsval
  macros :: jsval
  provenance :: jsval
  manualOverride :: bool

record analysis =
  a_id :: "string option"
  a_item :: "string option"
  a_name :: "string option"
  a_calories :: jsval
  a_macros :: "(string \<times> jsval) list option"
  a_provenance :: jsval

definition ts :: "log_entry \<Rightarrow> int" where
  \<comment> \<open>\<open>l.timestamp || 0\<close>\<close>
  "ts l = (case timestamp l of None \<Rightarrow> 0 | Some t \<Rightarrow> t)"

text \<open>
  \<open>getDailyLogs\<close>: all documents of the user, \<open>orderBy("timestamp", "desc")\<close>, which
  also leaves out a document without the field. Documents with equal timestamps are
  kept in the order of the store.
\<close>

definition getDailyLogs :: "log_entry list \<Rightarrow> log_entry list" where
  "getDailyLogs store = sort_key (\<lambda>l. - ts l) (filter (\<lambda>l. timestamp l \<noteq> None) store)"

text \<open>
  \<open>updateDailyLog(uid, logId, {calories, macros, provenance})\<close>: the three fields of
  the document with that id are replaced.
\<close>

definition updateDailyLog ::
  "log_entry list \<Rightarrow> string \<Rightarrow> jsval \<Rightarrow> jsval \<Rightarrow> jsval \<Rightarrow> log_entry list" where
  "updateDailyLog store logId c m p =
     map (\<lambda>l. if entry_id l = logId
               then l\<lparr> calories := c, macros := m, provenance := p \<rparr> else l) store"

section \<open>Reconciliation matcher (DailyLogPage.jsx: analyzeItemsBackend)\<close>

fun str_includes :: "string \<Rightarrow> string \<Rightarrow> bool" where
  \<comment> \<open>\<open>s.includes(p)\<close>\<close>
  "str_includes [] p = (p = [])"
| "str_includes (c # cs) p = (startsWith (c # cs) p \<or> str_includes cs p)"

definition is_digit :: "char \<Rightarrow> bool" where
  "is_digit c = (let n = (of_char c :: nat) in 48 \<le> n \<and> n \<le> 57)"

fun test_item_digits :: "string \<Rightarrow> bool" where
  \<comment> \<open>\<open>/item-(\d+)/.test(s)\<close>: somewhere \<open>item-\<close> is followed by a digit\<close>
  "test_item_digits [] = False"
| "test_item_digits (c # cs) =
     ((startsWith (c # cs) ''item-'' \<and>
       (case drop 5 (c # cs) of [] \<Rightarrow> False | d # _ \<Rightarrow> is_digit d))
      \<or> test_item_digits cs)"

fun splitOn :: "char \<Rightarrow> string \<Rightarrow> string list" where
  \<comment> \<open>\<open>s.split(c)\<close>\<close>
  "splitOn c [] = [[]]"
| "splitOn c (x # xs) =
     (if x = c then [] # splitOn c xs
      else (case splitOn c xs of [] \<Rightarrow> [[x]] | p # ps \<Rightarrow> (x # p) # ps))"

definition digit_val :: "char \<Rightarrow> int" where
  "digit_val c = int (of_char c) - 48"

definition parseInt10 :: "string \<Rightarrow> int option" where
  \<comment> \<open>\<open>parseInt(s, 10)\<close>; \<open>None\<close> is \<open>NaN\<close>\<close>
  "parseInt10 s =
     (let t = dropWhile is_space s;
          neg = (case t of [] \<Rightarrow> False | c # _ \<Rightarrow> c = CHR ''-'');
          u = (case t of [] \<Rightarrow> [] | c # cs \<Rightarrow> if c = CHR ''-'' \<or> c = CHR ''+'' then cs else t);
          ds = takeWhile is_digit u;
          v = foldl (\<lambda>a c. 10 * a + digit_val c) 0 ds
      in if ds = [] then None else Some (if neg then - v else v))"

definition entry_name :: "log_entry \<Rightarrow> string" where
  \<comment> \<open>\<open>l.item || l.item_name || ""\<close>\<close>
  "entry_name l = str_or (item l) (str_or (item_name l) [])"

definition is_meal :: "log_entry \<Rightarrow> bool" where
  \<comment> \<open>\<open>(l.category || "").toLowerCase() === "meal"\<close>\<close>
  "is_meal l = (toLowerCase (str_or (category l) []) = ''meal'')"

definition match_exact :: "log_entry list \<Rightarrow> string \<Rightarrow> log_entry option" where
  "match_exact currentLogs analyzedName =
     List.find (\<lambda>l. normalize (entry_name l) = analyzedName \<and>
                     str_or (category l) ''meal'' = ''meal'') currentLogs"

definition item_index :: "string \<Rightarrow> int" where
  \<comment> \<open>\<open>parseInt(analyzedId.split("-")[1], 10) || 0\<close>\<close>
  "item_index analyzedId =
     (case splitOn CHR ''-'' analyzedId of
        p # q # _ \<Rightarrow> (case parseInt10 q of None \<Rightarrow> 0 | Some n \<Rightarrow> n)
      | _ \<Rightarrow> 0)"

definition match_positional :: "log_entry list \<Rightarrow> string option \<Rightarrow> log_entry option" where
  "match_positional currentLogs analyzedId =
     (case analyzedId of
        None \<Rightarrow> None
      | Some aid \<Rightarrow>
          if test_item_digits aid
          then (let idx = item_index aid;
                    sameDateMeals = filter is_meal currentLogs
                in if 0 \<le> idx \<and> nat idx < length sameDateMeals
                   then Some (sameDateMeals ! nat idx) else None)
          else None)"

definition match_substring :: "log_entry list \<Rightarrow> string \<Rightarrow> log_entry option" where
  "match_substring currentLogs analyzedName =
     (if analyzedName = [] then None
      else (case List.find (\<lambda>l. str_includes (normalize (str_or (item l) [])) analyzedName)
                   currentLogs of
              Some m \<Rightarrow> Some m
            | None \<Rightarrow>
                List.find (\<lambda>l. str_includes analyzedName (normalize (str_or (item l) [])))
                  currentLogs))"

definition match_recent :: "log_entry list \<Rightarrow> log_entry option" where
  \<comment> \<open>\<open>meals.slice().sort((a, b) => (b.timestamp || 0) - (a.timestamp || 0))[0]\<close>;
      the sort is stable\<close>
  "match_recent currentLogs =
     (let meals = filter is_meal currentLogs
      in case sort_key (\<lambda>l. - ts l) meals of [] \<Rightarrow> None | m # _ \<Rightarrow> Some m)"

datatype rule = Exact | Positional | Substring | MostRecent

definition analyzedName_of :: "analysis \<Rightarrow> string" where
  "analyzedName_of r = normalize (str_or (a_item r) (str_or (a_name r) []))"

definition analyzedId_of :: "analysis \<Rightarrow> string option" where
  \<comment> \<open>\<open>analyzed.id || null\<close>\<close>
  "analyzedId_of r = (case a_id r of None \<Rightarrow> None | Some s \<Rightarrow> if s = [] then None else Some s)"

text \<open>The four rules in the order of the source; the result names the rule that matched.\<close>

definition find_match :: "log_entry list \<Rightarrow> analysis \<Rightarrow> (rule \<times> log_entry) option" where
  "find_match currentLogs r =
     (case match_exact currentLogs (analyzedName_of r) of
        Some m \<Rightarrow> Some (Exact, m)
      | None \<Rightarrow>
     (case match_positional currentLogs (analyzedId_of r) of
        Some m \<Rightarrow> Some (Positional, m)
      | None \<Rightarrow>
     (case match_substring currentLogs (analyzedName_of r) of
        Some m \<Rightarrow> Some (Substring, m)
      | None \<Rightarrow>
     (case match_recent currentLogs of
        Some m \<Rightarrow> Some (MostRecent, m)
      | None \<Rightarrow> None))))"

definition first_of :: "jsval list \<Rightarrow> jsval" where
  \<comment> \<open>\<open>a ?? b ?? ... ?? 0\<close>\<close>
  "first_of vs = foldr coalesce vs (JNum (Fin 0))"

definition normalizedMacros :: "(string \<Rightarrow> jsnum) \<Rightarrow> analysis \<Rightarrow> (string \<times> jsval) list" where
  "normalizedMacros sn r =
     (let m = (case a_macros r of None \<Rightarrow> [] | Some kvs \<Rightarrow> kvs);
          num = (\<lambda>vs. JNum (num_or (Number sn (first_of vs)) (Fin 0)))
      in spread
           [(''calories_kcal'',
               num [a_calories r, obj_get m ''calories_kcal'', obj_get m ''energy_kcal'']),
            (''protein_g'', num [obj_get m ''protein_g'', obj_get m ''protein'']),
            (''total_carbohydrate_g'',
               num [obj_get m ''total_carbohydrate_g'', obj_get m ''carbs'',
                    obj_get m ''total_carbs'']),
            (''total_fat_g'',
               num [obj_get m ''total_fat_g'', obj_get m ''fats'', obj_get m ''total_fat''])]
           m)"

definition fullMacros :: "(string \<Rightarrow> jsnum) \<Rightarrow> analysis \<Rightarrow> (string \<times> jsval) list" where
  "fullMacros sn r =
     obj_put ''raw'' (JObj (case a_macros r of None \<Rightarrow> [] | Some kvs \<Rightarrow> kvs))
       (normalizedMacros sn r)"

definition new_provenance :: "analysis \<Rightarrow> jsval" where
  "new_provenance r =
     coalesce (a_provenance r)
       (JObj [(''source'',
               JStr (if analyzedId_of r \<noteq> None then ''analyzed'' else ''unknown''))])"

text \<open>
  One turn of the loop over the results: the match is looked up in \<open>currentLogs\<close>, the
  list fetched once before the loop; the update goes to the store. A match without an
  id is skipped. An update that the store rejects is logged and skipped by the source;
  here every update succeeds.
\<close>

definition apply_result ::
  "(string \<Rightarrow> jsnum) \<Rightarrow> log_entry list \<Rightarrow> log_entry list \<Rightarrow> analysis \<Rightarrow> log_entry list" where
  "apply_result sn currentLogs store r =
     (case find_match currentLogs r of
        None \<Rightarrow> store
      | Some (rl, m) \<Rightarrow>
          if entry_id m = [] then store
          else updateDailyLog store (entry_id m)
                 (obj_get (fullMacros sn r) ''calories_kcal'')
                 (JObj (fullMacros sn r))
                 (new_provenance r))"

fun reconcile ::
  "(string \<Rightarrow> jsnum) \<Rightarrow> log_entry list \<Rightarrow> log_entry list \<Rightarrow> analysis list \<Rightarrow> log_entry list" where
  "reconcile sn currentLogs store [] = store"
| "reconcile sn currentLogs store (r # rs) =
     reconcile sn currentLogs (apply_result sn currentLogs store r) rs"

definition analyzeItemsBackend ::
  "(string \<Rightarrow> jsnum) \<Rightarrow> log_entry list \<Rightarrow> analysis list \<Rightarrow> log_entry list" where
  \<comment> \<open>the store after the pass over the results of a successful request\<close>
  "analyzeItemsBackend sn store results = reconcile sn (getDailyLogs store) store results"

section \<open>Selection in handleAnalyzeToday (DailyLogPage.jsx)\<close>




section \<open>Daily aggregator (App.js: extractMealMacros, today's totals,
  computeStreaksFromLogs)\<close>



















definition day_of_key :: "int \<Rightarrow> int \<Rightarrow> int \<Rightarrow> int" where
  \<comment> \<open>the day number of the date key \<open>y-m-d\<close> (proleptic Gregorian calendar)\<close>
  "day_of_key y m d =
     (let y' = (if m \<le> 2 then y - 1 else y);
          era = y' div 400;
          yoe = y' - era * 400;
          doy = (153 * (if m > 2 then m - 3 else m + 9) + 2) div 5 + d - 1;
          doe = yoe * 365 + yoe div 4 - yoe div 100 + doy
      in era * 146097 + doe - 719468)"

text \<open>Entries and results for the closed examples.\<close>

definition meal :: "string \<Rightarrow> string \<Rightarrow> int \<Rightarrow> int \<Rightarrow> log_entry" where
  "meal i nm t d =
     \<lparr> entry_id = i, item = Some nm, item_name = None, category = Some ''meal'',
       timestamp = Some t, date = Some d, calories = JUndefined, macros = JUndefined,
       provenance = JUndefined, manualOverride = False \<rparr>"

definition result :: "string option \<Rightarrow> string \<Rightarrow> rat \<Rightarrow> analysis" where
  "result i nm c =
     \<lparr> a_id = i, a_item = None, a_name = Some nm, a_calories = JNum (Fin c),
       a_macros = None, a_provenance = JUndefined \<rparr>"








text \<open>
  Notions used to state what a pass does: the effect of the update written for a result,
  whether a result selects the documents with a given id, and equality of two entries
  in everything but the three fields an update writes.
\<close>

definition write_result :: "(string \<Rightarrow> jsnum) \<Rightarrow> analysis \<Rightarrow> log_entry \<Rightarrow> log_entry" where
  "write_result sn r l =
     l\<lparr> calories := obj_get (fullMacros sn r) ''calories_kcal'',
        macros := JObj (fullMacros sn r),
        provenance := new_provenance r \<rparr>"

definition selects :: "log_entry list \<Rightarrow> analysis \<Rightarrow> string \<Rightarrow> bool" where
  "selects currentLogs r k =
     (case find_match currentLogs r of
        None \<Rightarrow> False
      | Some (rl, m) \<Rightarrow> entry_id m \<noteq> [] \<and> entry_id m = k)"

definition same_but_nutrition :: "log_entry \<Rightarrow> log_entry \<Rightarrow> bool" where
  "same_but_nutrition l l' =
     (l' = l\<lparr> calories := calories l', macros := macros l', provenance := provenance l' \<rparr>)"

definition last_write ::
  "(string \<Rightarrow> jsnum) \<Rightarrow> log_entry list \<Rightarrow> analysis list \<Rightarrow> log_entry \<Rightarrow> log_entry" where
  \<comment> \<open>the entry with the values of the last result that selects it, if any\<close>
  "last_write sn currentLogs results l =
     (case filter (\<lambda>r. selects currentLogs r (entry_id l)) results of
        [] \<Rightarrow> l
      | r # rs \<Rightarrow> write_result sn (last (r # rs)) l)"

definition override_store :: "log_entry list" where
  \<comment> \<open>a meal with manually entered calories and the override flag, and a glass of water\<close>
  "override_store =
     [(meal ''a'' ''Rice'' 1704196800000 (day_of_key 2024 1 2))
        \<lparr> calories := JNum (Fin 500), manualOverride := True \<rparr>,
      (meal ''w'' ''Water'' 1704200400000 (day_of_key 2024 1 2))
        \<lparr> category := Some ''water'' \<rparr>]"

definition two_meals :: "log_entry list" where
  \<comment> \<open>two meals of one day, in the order in which they were logged and submitted\<close>
  "two_meals =
     [meal ''a'' ''Apple pie'' 1704196800000 (day_of_key 2024 1 2),
      meal ''b'' ''Banana split'' 1704200400000 (day_of_key 2024 1 2)]"

definition two_day_store :: "log_entry list" where
  \<comment> \<open>a meal logged at 23:59:50 on 2024-01-02 and one logged 30 seconds later\<close>
  "two_day_store =
     [meal ''a'' ''Rice'' 1704239990000 (day_of_key 2024 1 2),
      meal ''b'' ''Dal'' 1704240020000 (day_of_key 2024 1 3)]"

section \<open>Job poller (DailyLogPage.jsx, ActivityGraph.jsx: pollForSummary;
  firebaseHelpers: generateDailySummary)\<close>

text \<open>
  What one status request can bring: \<open>fetch\<close> rejects (a network error), or a response
  arrives with an HTTP status and a body; the body is not JSON (\<open>res.json()\<close> rejects),
  is JSON \<open>null\<close>, or is an object with an optional \<open>status\<close> and an optional (truthy)
  \<open>summary\<close>.
\<close>

datatype 'a body = Malformed | JsonNull | JsonObj "string option" "'a option"

datatype 'a poll = NetworkError | Response nat "'a body"

datatype 'a outcome = Returned "'a option" | Thrown string

record 'a run =
  outcome :: "'a outcome"
  requests :: nat
  delays :: "int list"

text \<open>
  The body of the \<open>try\<close> block of \<open>pollForSummary\<close>: \<open>Some s\<close> when the loop returns
  the summary \<open>s\<close>; a rejected \<open>fetch\<close> or \<open>res.json()\<close> is caught and logged.
\<close>

fun poll_try :: "'a poll \<Rightarrow> 'a option" where
  "poll_try NetworkError = None"
| "poll_try (Response st Malformed) = None"
| "poll_try (Response st JsonNull) = None"
| "poll_try (Response st (JsonObj status summary)) =
     (if st = 200 \<and> status = Some ''complete'' then summary else None)"

definition next_interval :: "int \<Rightarrow> int" where
  \<comment> \<open>\<open>Math.min(10000, Math.round(interval * 1.4))\<close> on an integer interval\<close>
  "next_interval i = min 10000 \<lfloor>(of_int i :: rat) * (14 / 10) + 1 / 2\<rfloor>"

text \<open>
  The loop of \<open>pollForSummary\<close>. \<open>server k\<close> is what the \<open>k\<close>-th status request brings
  and \<open>jitter k\<close> the value of \<open>Math.floor(Math.random() * 500)\<close> drawn after it.
\<close>

function poll_loop ::
  "(nat \<Rightarrow> 'a poll) \<Rightarrow> (nat \<Rightarrow> nat) \<Rightarrow> nat \<Rightarrow> nat \<Rightarrow> int \<Rightarrow> int list \<Rightarrow> 'a run" where
  "poll_loop server jitter maxAttempts attempt interval ds =
     (if attempt < maxAttempts
      then (case poll_try (server (attempt + 1)) of
              Some s \<Rightarrow> \<lparr> outcome = Returned (Some s), requests = attempt + 1, delays = ds \<rparr>
            | None \<Rightarrow>
                poll_loop server jitter maxAttempts (attempt + 1) (next_interval interval)
                  (ds @ [interval + int (jitter (attempt + 1))]))
      else \<lparr> outcome = Thrown ''Timed out waiting for summary'',
             requests = attempt, delays = ds \<rparr>)"
  by pat_completeness auto
termination
  by (relation "measure (\<lambda>(server, jitter, maxAttempts, attempt, interval, ds).
        maxAttempts - attempt)") auto

declare poll_loop.simps [simp del]

definition pollForSummary ::
  "(nat \<Rightarrow> 'a poll) \<Rightarrow> (nat \<Rightarrow> nat) \<Rightarrow> int \<Rightarrow> nat \<Rightarrow> 'a run" where
  "pollForSummary server jitter interval maxAttempts =
     poll_loop server jitter maxAttempts 0 interval []"

text \<open>
  \<open>generateDailySummary\<close> has one \<open>try\<close> around the whole function: a rejected
  \<open>fetch\<close> or \<open>st.json()\<close> of a status request leaves the loop and the \<open>catch\<close>
  returns \<open>null\<close>. One status request either completes, leaves the job pending, or raises.
\<close>

datatype 'a step = Done 'a | Pending | Raised

fun gen_poll :: "'a poll \<Rightarrow> 'a step" where
  "gen_poll NetworkError = Raised"
| "gen_poll (Response st b) =
     (if 200 \<le> st \<and> st \<le> 299
      then (case b of
              Malformed \<Rightarrow> Raised
            | JsonNull \<Rightarrow> Pending
            | JsonObj status summary \<Rightarrow>
                (if status = Some ''complete''
                 then (case summary of Some s \<Rightarrow> Done s | None \<Rightarrow> Pending)
                 else Pending))
      else Pending)"

function gen_loop ::
  "(nat \<Rightarrow> 'a poll) \<Rightarrow> int \<Rightarrow> nat \<Rightarrow> nat \<Rightarrow> int list \<Rightarrow> 'a run" where
  "gen_loop server pollIntervalMs maxAttempts attempts ds =
     (if attempts < maxAttempts
      then (case gen_poll (server (attempts + 1)) of
              Done s \<Rightarrow> \<lparr> outcome = Returned (Some s), requests = attempts + 1, delays = ds \<rparr>
            | Raised \<Rightarrow> \<lparr> outcome = Returned None, requests = attempts + 1, delays = ds \<rparr>
            | Pending \<Rightarrow>
                gen_loop server pollIntervalMs maxAttempts (attempts + 1) (ds @ [pollIntervalMs]))
      else \<lparr> outcome = Returned None, requests = attempts, delays = ds \<rparr>)"
  by pat_completeness auto
termination
  by (relation "measure (\<lambda>(server, pollIntervalMs, maxAttempts, attempts, ds).
        maxAttempts - attempts)") auto

declare gen_loop.simps [simp del]

text \<open>
  The kick-off request: \<open>start\<close> is what the POST brings; a network error or a status
  outside 200-299 is thrown into the \<open>catch\<close>, which returns \<open>null\<close>.
\<close>

definition generateDailySummary ::
  "'b poll \<Rightarrow> (nat \<Rightarrow> 'a poll) \<Rightarrow> int \<Rightarrow> nat \<Rightarrow> 'a run" where
  "generateDailySummary start server pollIntervalMs maxAttempts =
     (case start of
        NetworkError \<Rightarrow> \<lparr> outcome = Returned None, requests = 0, delays = [] \<rparr>
      | Response st b \<Rightarrow>
          if 200 \<le> st \<and> st \<le> 299
          then gen_loop server pollIntervalMs maxAttempts 0 []
          else \<lparr> outcome = Returned None, requests = 0, delays = [] \<rparr>)"

text \<open>Servers and jitter draws for the closed examples.\<close>

definition pending :: "string poll" where
  "pending = Response 200 (JsonObj (Some ''pending'') None)"

definition complete :: "string poll" where
  "complete = Response 200 (JsonObj (Some ''complete'') (Some ''summary''))"

definition always_pending :: "nat \<Rightarrow> string poll" where
  "always_pending k = pending"

definition complete_at_third :: "nat \<Rightarrow> string poll" where
  "complete_at_third k = (if k < 3 then pending else complete)"

definition failing_polls :: "nat \<Rightarrow> string poll" where
  \<comment> \<open>a network error, then a body that is not JSON, then pending for ever\<close>
  "failing_polls k =
     (if k = 1 then NetworkError else if k = 2 then Response 200 Malformed else pending)"

definition jitter_high_low :: "nat \<Rightarrow> nat" where
  "jitter_high_low k = (if k = 1 then 499 else 0)"

definition no_jitter :: "nat \<Rightarrow> nat" where
  "no_jitter k = 0"

section \<open>Properties of the target calculator\<close>

text \<open>
  C9 (as the code computes it): for the default profile (male, 70 kg, 170 cm, 25 years,
  moderately active, maintenance) the basal rate is 1642.5, reported as 1643; the total
  expenditure is 1642.5 * 1.55 = 2545.875, computed from the unrounded basal rate and
  reported as 2546 in both \<open>tdee\<close> and the calorie target; protein, carbohydrate and
  fat targets are 112, 398 and 56 grams. The same holds when every field is absent.
\<close>

theorem computeGoals_default:
  "computeBMR sn default_profile = Fin (3285 / 2) \<and>
   computeGoals sn default_profile =
     \<lparr> bmr = Fin 1643, tdee = Fin 2546,
       macro_goals = \<lparr> mg_calories = Fin 2546, mg_protein_g = Fin 112,
                        mg_carbs_g = Fin 398, mg_fats_g = Fin 56 \<rparr> \<rparr> \<and>
   computeGoals sn absent_profile = computeGoals sn default_profile"
  by code_simp

text \<open>
  C9 (as stated, refuted): the claim takes the total expenditure to be the rounded basal
  rate 1643 times 1.55, which is 2546.65 and rounds to 2547; the calculator reports 2546.
\<close>

theorem computeGoals_tdee_counterexample:
  "tdee (computeGoals parse_none default_profile) = Fin 2546 \<and>
   math_round (jmul (bmr (computeGoals parse_none default_profile)) (Fin (155 / 100))) = Fin 2547"
  by code_simp

section \<open>Properties of the name normaliser\<close>

text \<open>
  C4 (evaluated at the failing input): \<open>normalize\<close> trims before it strips, so a space
  next to a stripped character at either end survives the first pass and is trimmed by
  the second: \<open>normalize "Pizza !" = "pizza "\<close> and \<open>normalize "pizza " = "pizza"\<close>.
\<close>

theorem normalize_not_idempotent:
  "normalize ''Pizza !'' = ''pizza '' \<and> normalize (normalize ''Pizza !'') = ''pizza'' \<and>
   normalize (normalize ''Pizza !'') \<noteq> normalize ''Pizza !''"
  by code_simp

section \<open>Properties of the job poller\<close>

lemma poll_loop_requests_le:
  "attempt \<le> maxAttempts \<Longrightarrow>
   requests (poll_loop server jitter maxAttempts attempt interval ds) \<le> maxAttempts"
proof (induction server jitter maxAttempts attempt interval ds rule: poll_loop.induct)
  case (1 server jitter maxAttempts attempt interval ds)
  show ?case
  proof (cases "attempt < maxAttempts")
    case False
    then show ?thesis using "1.prems" by (simp add: poll_loop.simps)
  next
    case True
    show ?thesis
    proof (cases "poll_try (server (attempt + 1))")
      case None
      with True "1.IH" show ?thesis
        by (subst poll_loop.simps) simp
    next
      case (Some s)
      with True show ?thesis
        by (subst poll_loop.simps) simp
    qed
  qed
qed

lemma poll_loop_timeout:
  "attempt \<le> maxAttempts \<Longrightarrow>
   (\<And>k. attempt < k \<Longrightarrow> k \<le> maxAttempts \<Longrightarrow> poll_try (server k) = None) \<Longrightarrow>
   outcome (poll_loop server jitter maxAttempts attempt interval ds)
     = Thrown ''Timed out waiting for summary'' \<and>
   requests (poll_loop server jitter maxAttempts attempt interval ds) = maxAttempts"
proof (induction server jitter maxAttempts attempt interval ds rule: poll_loop.induct)
  case (1 server jitter maxAttempts attempt interval ds)
  show ?case
  proof (cases "attempt < maxAttempts")
    case False
    then show ?thesis using "1.prems" by (simp add: poll_loop.simps)
  next
    case True
    then have none: "poll_try (server (attempt + 1)) = None"
      using "1.prems"(2) by simp
    have "outcome (poll_loop server jitter maxAttempts (attempt + 1) (next_interval interval)
              (ds @ [interval + int (jitter (attempt + 1))]))
            = Thrown ''Timed out waiting for summary'' \<and>
          requests (poll_loop server jitter maxAttempts (attempt + 1) (next_interval interval)
              (ds @ [interval + int (jitter (attempt + 1))])) = maxAttempts"
      using "1.IH" [OF True none] True "1.prems"(2) by simp
    with True none show ?thesis
      by (subst (1 2) poll_loop.simps) simp
  qed
qed

lemma poll_loop_thrown:
  "attempt \<le> maxAttempts \<Longrightarrow>
   outcome (poll_loop server jitter maxAttempts attempt interval ds) = Thrown msg \<Longrightarrow>
   msg = ''Timed out waiting for summary'' \<and>
   requests (poll_loop server jitter maxAttempts attempt interval ds) = maxAttempts"
proof (induction server jitter maxAttempts attempt interval ds rule: poll_loop.induct)
  case (1 server jitter maxAttempts attempt interval ds)
  show ?case
  proof (cases "attempt < maxAttempts")
    case False
    then show ?thesis using "1.prems" by (simp add: poll_loop.simps)
  next
    case True
    show ?thesis
    proof (cases "poll_try (server (attempt + 1))")
      case None
      with True "1.IH" "1.prems" show ?thesis
        by (subst (asm) (2) poll_loop.simps, subst poll_loop.simps) simp
    next
      case (Some s)
      with True "1.prems" show ?thesis
        by (subst (asm) poll_loop.simps) simp
    qed
  qed
qed

lemma poll_loop_returns:
  "attempt < n \<Longrightarrow> n \<le> maxAttempts \<Longrightarrow>
   (\<And>k. attempt < k \<Longrightarrow> k < n \<Longrightarrow> poll_try (server k) = None) \<Longrightarrow>
   poll_try (server n) = Some s \<Longrightarrow>
   outcome (poll_loop server jitter maxAttempts attempt interval ds) = Returned (Some s) \<and>
   requests (poll_loop server jitter maxAttempts attempt interval ds) = n \<and>
   length (delays (poll_loop server jitter maxAttempts attempt interval ds))
     = length ds + (n - attempt - 1)"
proof (induction server jitter maxAttempts attempt interval ds rule: poll_loop.induct)
  case (1 server jitter maxAttempts attempt interval ds)
  have lt: "attempt < maxAttempts" using "1.prems" by simp
  show ?case
  proof (cases "attempt + 1 = n")
    case True
    with lt "1.prems"(4) show ?thesis
      by (subst (1 2 3) poll_loop.simps) simp
  next
    case False
    then have lt': "attempt + 1 < n" using "1.prems"(1) by simp
    then have none: "poll_try (server (attempt + 1)) = None"
      using "1.prems"(3) by simp
    have "outcome (poll_loop server jitter maxAttempts (attempt + 1) (next_interval interval)
              (ds @ [interval + int (jitter (attempt + 1))])) = Returned (Some s) \<and>
          requests (poll_loop server jitter maxAttempts (attempt + 1) (next_interval interval)
              (ds @ [interval + int (jitter (attempt + 1))])) = n \<and>
          length (delays (poll_loop server jitter maxAttempts (attempt + 1) (next_interval interval)
              (ds @ [interval + int (jitter (attempt + 1))])))
            = length (ds @ [interval + int (jitter (attempt + 1))]) + (n - (attempt + 1) - 1)"
      using "1.IH" [OF lt none lt' "1.prems"(2) _ "1.prems"(4)] "1.prems"(3) by simp
    with lt none lt' show ?thesis
      by (subst (1 2 3) poll_loop.simps) simp
  qed
qed

lemma poll_loop_delays:
  "\<exists>n. delays (poll_loop server jitter maxAttempts attempt interval ds)
     = ds @ map (\<lambda>j. (next_interval ^^ j) interval + int (jitter (attempt + j + 1))) [0..<n]"
proof (induction server jitter maxAttempts attempt interval ds rule: poll_loop.induct)
  case (1 server jitter maxAttempts attempt interval ds)
  show ?case
  proof (cases "attempt < maxAttempts \<and> poll_try (server (attempt + 1)) = None")
    case False
    then have "delays (poll_loop server jitter maxAttempts attempt interval ds) = ds"
      by (subst poll_loop.simps) (auto split: option.splits)
    then show ?thesis by (intro exI [of _ 0]) simp
  next
    case True
    then obtain n where n:
      "delays (poll_loop server jitter maxAttempts (attempt + 1) (next_interval interval)
          (ds @ [interval + int (jitter (attempt + 1))]))
       = (ds @ [interval + int (jitter (attempt + 1))]) @
         map (\<lambda>j. (next_interval ^^ j) (next_interval interval)
               + int (jitter (attempt + 1 + j + 1))) [0..<n]"
      using "1.IH" by blast
    have "map (\<lambda>j. (next_interval ^^ j) interval + int (jitter (attempt + j + 1))) [0..<Suc n]
        = (interval + int (jitter (attempt + 1))) #
          map (\<lambda>j. (next_interval ^^ j) (next_interval interval)
               + int (jitter (attempt + 1 + j + 1))) [0..<n]"
    proof -
      have "[0..<Suc n] = 0 # map Suc [0..<n]"
        by (simp add: upt_conv_Cons map_Suc_upt del: upt_Suc)
      then show ?thesis
        by (simp add: funpow_swap1 comp_def del: upt_Suc)
    qed
    with n True show ?thesis
      by (subst poll_loop.simps) (auto intro!: exI [of _ "Suc n"] simp del: upt_Suc)
  qed
qed

lemma next_interval_int: "next_interval i = min 10000 ((14 * i + 5) div 10)"
proof -
  have "(of_int i :: rat) * (14 / 10) + 1 / 2 = of_int (14 * i + 5) / of_int 10"
    by (simp add: field_simps)
  then have "\<lfloor>(of_int i :: rat) * (14 / 10) + 1 / 2\<rfloor> = (14 * i + 5) div 10"
    by (simp only: floor_divide_of_int_eq)
  then show ?thesis by (simp add: next_interval_def)
qed

lemma next_interval_mono:
  "0 \<le> i \<Longrightarrow> i \<le> 10000 \<Longrightarrow> i \<le> next_interval i \<and> next_interval i \<le> 10000"
  by (auto simp: next_interval_int min_def)

lemma interval_at_bounds:
  "0 \<le> i \<Longrightarrow> i \<le> 10000 \<Longrightarrow> 0 \<le> (next_interval ^^ k) i \<and> (next_interval ^^ k) i \<le> 10000"
proof (induction k)
  case 0 then show ?case by simp
next
  case (Suc k)
  then show ?case using next_interval_mono [of "(next_interval ^^ k) i"] by auto
qed


lemma gen_loop_requests_le:
  "attempts \<le> maxAttempts \<Longrightarrow>
   requests (gen_loop server pollIntervalMs maxAttempts attempts ds) \<le> maxAttempts"
proof (induction server pollIntervalMs maxAttempts attempts ds rule: gen_loop.induct)
  case (1 server pollIntervalMs maxAttempts attempts ds)
  show ?case
  proof (cases "attempts < maxAttempts")
    case False
    then show ?thesis using "1.prems" by (simp add: gen_loop.simps)
  next
    case True
    with "1.IH" show ?thesis
      by (subst gen_loop.simps) (simp split: step.splits)
  qed
qed

lemma gen_loop_returned:
  "\<exists>r. outcome (gen_loop server pollIntervalMs maxAttempts attempts ds) = Returned r"
proof (induction server pollIntervalMs maxAttempts attempts ds rule: gen_loop.induct)
  case (1 server pollIntervalMs maxAttempts attempts ds)
  show ?case
  proof (cases "attempts < maxAttempts")
    case False
    then show ?thesis by (simp add: gen_loop.simps)
  next
    case True
    with "1.IH" show ?thesis
      by (subst gen_loop.simps) (simp split: step.splits)
  qed
qed

lemma gen_loop_timeout:
  "(\<And>k s. attempts < k \<Longrightarrow> k \<le> maxAttempts \<Longrightarrow> gen_poll (server k) \<noteq> Done s) \<Longrightarrow>
   outcome (gen_loop server pollIntervalMs maxAttempts attempts ds) = Returned None"
proof (induction server pollIntervalMs maxAttempts attempts ds rule: gen_loop.induct)
  case (1 server pollIntervalMs maxAttempts attempts ds)
  show ?case
  proof (cases "attempts < maxAttempts")
    case False
    then show ?thesis by (simp add: gen_loop.simps)
  next
    case True
    then have nd: "\<And>s. gen_poll (server (attempts + 1)) \<noteq> Done s"
      using "1.prems" by simp
    show ?thesis
    proof (cases "gen_poll (server (attempts + 1))")
      case (Done s)
      with nd show ?thesis by simp
    next
      case Raised
      with True show ?thesis by (subst gen_loop.simps) simp
    next
      case Pending
      have "outcome (gen_loop server pollIntervalMs maxAttempts (attempts + 1)
              (ds @ [pollIntervalMs])) = Returned None"
        using "1.IH" [OF True Pending] "1.prems" by simp
      with True Pending show ?thesis by (subst gen_loop.simps) simp
    qed
  qed
qed

lemma gen_loop_returns:
  "attempts < n \<Longrightarrow> n \<le> maxAttempts \<Longrightarrow>
   (\<And>k. attempts < k \<Longrightarrow> k < n \<Longrightarrow> gen_poll (server k) = Pending) \<Longrightarrow>
   gen_poll (server n) = Done s \<Longrightarrow>
   outcome (gen_loop server pollIntervalMs maxAttempts attempts ds) = Returned (Some s) \<and>
   requests (gen_loop server pollIntervalMs maxAttempts attempts ds) = n"
proof (induction server pollIntervalMs maxAttempts attempts ds rule: gen_loop.induct)
  case (1 server pollIntervalMs maxAttempts attempts ds)
  have lt: "attempts < maxAttempts" using "1.prems" by simp
  show ?case
  proof (cases "attempts + 1 = n")
    case True
    with lt "1.prems"(4) show ?thesis
      by (subst (1 2) gen_loop.simps) simp
  next
    case False
    then have lt': "attempts + 1 < n" using "1.prems"(1) by simp
    then have pend: "gen_poll (server (attempts + 1)) = Pending"
      using "1.prems"(3) by simp
    have "outcome (gen_loop server pollIntervalMs maxAttempts (attempts + 1)
              (ds @ [pollIntervalMs])) = Returned (Some s) \<and>
          requests (gen_loop server pollIntervalMs maxAttempts (attempts + 1)
              (ds @ [pollIntervalMs])) = n"
      using "1.IH" [OF lt pend lt' "1.prems"(2) _ "1.prems"(4)] "1.prems"(3) by simp
    with lt pend show ?thesis
      by (subst (1 2) gen_loop.simps) simp
  qed
qed

lemma gen_loop_delays:
  "\<exists>n. delays (gen_loop server pollIntervalMs maxAttempts attempts ds)
     = ds @ replicate n pollIntervalMs"
proof (induction server pollIntervalMs maxAttempts attempts ds rule: gen_loop.induct)
  case (1 server pollIntervalMs maxAttempts attempts ds)
  show ?case
  proof (cases "attempts < maxAttempts \<and> gen_poll (server (attempts + 1)) = Pending")
    case False
    then have "delays (gen_loop server pollIntervalMs maxAttempts attempts ds) = ds"
      by (subst gen_loop.simps) (auto split: step.splits)
    then show ?thesis by (intro exI [of _ 0]) simp
  next
    case True
    then obtain n where
      "delays (gen_loop server pollIntervalMs maxAttempts (attempts + 1) (ds @ [pollIntervalMs]))
       = (ds @ [pollIntervalMs]) @ replicate n pollIntervalMs"
      using "1.IH" by blast
    with True show ?thesis
      by (subst gen_loop.simps) (auto intro!: exI [of _ "Suc n"])
  qed
qed

text \<open>
  C2 (as the code behaves): neither poller sends more than \<open>maxAttempts\<close> status
  requests. \<open>pollForSummary\<close> never lets a failed request or a malformed body escape
  the loop: the only error it throws is the time-out, after exactly \<open>maxAttempts\<close>
  requests, and it does throw it whenever none of the first \<open>maxAttempts\<close> responses
  is complete. \<open>generateDailySummary\<close> never throws: it always returns, and it
  returns \<open>null\<close> whenever none of the first \<open>maxAttempts\<close> responses is complete.
\<close>

theorem poller_timeout:
  "requests (pollForSummary server jitter interval maxAttempts) \<le> maxAttempts \<and>
   (outcome (pollForSummary server jitter interval maxAttempts) = Thrown msg \<longrightarrow>
      msg = ''Timed out waiting for summary'' \<and>
      requests (pollForSummary server jitter interval maxAttempts) = maxAttempts) \<and>
   ((\<forall>k. 1 \<le> k \<and> k \<le> maxAttempts \<longrightarrow> poll_try (server k) = None) \<longrightarrow>
      outcome (pollForSummary server jitter interval maxAttempts)
        = Thrown ''Timed out waiting for summary'' \<and>
      requests (pollForSummary server jitter interval maxAttempts) = maxAttempts) \<and>
   requests (generateDailySummary start server pollIntervalMs maxAttempts) \<le> maxAttempts \<and>
   (\<exists>r. outcome (generateDailySummary start server pollIntervalMs maxAttempts) = Returned r) \<and>
   ((\<forall>k s. 1 \<le> k \<and> k \<le> maxAttempts \<longrightarrow> gen_poll (server k) \<noteq> Done s) \<longrightarrow>
      outcome (generateDailySummary start server pollIntervalMs maxAttempts) = Returned None)"
proof (intro conjI impI)
  show "requests (pollForSummary server jitter interval maxAttempts) \<le> maxAttempts"
    unfolding pollForSummary_def by (rule poll_loop_requests_le) simp
next
  assume "outcome (pollForSummary server jitter interval maxAttempts) = Thrown msg"
  then have *: "msg = ''Timed out waiting for summary'' \<and>
      requests (pollForSummary server jitter interval maxAttempts) = maxAttempts"
    unfolding pollForSummary_def by (intro poll_loop_thrown) simp_all
  from * show "msg = ''Timed out waiting for summary''" by simp
  from * show "requests (pollForSummary server jitter interval maxAttempts) = maxAttempts"
    by simp
next
  assume h: "\<forall>k. 1 \<le> k \<and> k \<le> maxAttempts \<longrightarrow> poll_try (server k) = None"
  have *: "outcome (pollForSummary server jitter interval maxAttempts)
        = Thrown ''Timed out waiting for summary'' \<and>
      requests (pollForSummary server jitter interval maxAttempts) = maxAttempts"
    unfolding pollForSummary_def using h by (intro poll_loop_timeout) simp_all
  from * show "outcome (pollForSummary server jitter interval maxAttempts)
        = Thrown ''Timed out waiting for summary''" by simp
  from * show "requests (pollForSummary server jitter interval maxAttempts) = maxAttempts"
    by simp
next
  show "requests (generateDailySummary start server pollIntervalMs maxAttempts) \<le> maxAttempts"
    by (simp add: generateDailySummary_def gen_loop_requests_le split: poll.splits)
next
  show "\<exists>r. outcome (generateDailySummary start server pollIntervalMs maxAttempts) = Returned r"
    by (simp add: generateDailySummary_def gen_loop_returned split: poll.splits)
next
  assume h: "\<forall>k s. 1 \<le> k \<and> k \<le> maxAttempts \<longrightarrow> gen_poll (server k) \<noteq> Done s"
  have "outcome (gen_loop server pollIntervalMs maxAttempts 0 []) = Returned None"
    using h by (intro gen_loop_timeout) simp_all
  then show "outcome (generateDailySummary start server pollIntervalMs maxAttempts) = Returned None"
    by (simp add: generateDailySummary_def split: poll.splits)
qed

text \<open>C2, witness: a server that always answers pending, three attempts.\<close>

theorem poller_timeout_witness:
  "poll_try (always_pending 1) = None \<and>
   outcome (pollForSummary always_pending no_jitter 1500 3)
     = Thrown ''Timed out waiting for summary'' \<and>
   requests (pollForSummary always_pending no_jitter 1500 3) = 3 \<and>
   outcome (generateDailySummary pending always_pending 1500 3) = Returned None"
  using poller_timeout [of always_pending no_jitter 1500 3 "''Timed out waiting for summary''"
      pending 1500]
  by (simp add: always_pending_def pending_def)

text \<open>
  C2 (as stated, refuted): with a status endpoint that always answers pending,
  \<open>pollForSummary\<close> with its default 20 attempts ends by throwing
  \<open>Error("Timed out waiting for summary")\<close>; it does not return an absent result.
\<close>

theorem pollForSummary_throws_counterexample:
  "outcome (pollForSummary always_pending no_jitter 1500 20)
     = Thrown ''Timed out waiting for summary'' \<and>
   requests (pollForSummary always_pending no_jitter 1500 20) = 20"
  by code_simp


lemma interval_at_step:
  "0 \<le> i \<Longrightarrow> i \<le> 10000 \<Longrightarrow>
   (next_interval ^^ k) i \<le> (next_interval ^^ (k + 1)) i \<and> (next_interval ^^ (k + 1)) i \<le> 10000"
  using interval_at_bounds [of i k] next_interval_mono [of "(next_interval ^^ k) i"] by simp

lemma pollForSummary_delay_nth:
  assumes "k < length (delays (pollForSummary server jitter interval maxAttempts))"
  shows "delays (pollForSummary server jitter interval maxAttempts) ! k
           = (next_interval ^^ k) interval + int (jitter (k + 1))"
proof -
  obtain n where n: "delays (pollForSummary server jitter interval maxAttempts)
      = map (\<lambda>j. (next_interval ^^ j) interval + int (jitter (j + 1))) [0..<n]"
    using poll_loop_delays [of server jitter maxAttempts 0 interval "[]"]
    by (auto simp: pollForSummary_def)
  with assms have "k < n" by simp
  with n show ?thesis by simp
qed

text \<open>
  C7 (as the code behaves): in \<open>pollForSummary\<close>, started with an interval between 0
  and 10000 ms and with jitter draws below 500, the \<open>k\<close>-th delay is the \<open>k\<close>-th
  interval plus the jitter drawn after the \<open>k\<close>-th request and is at most 10499 ms; each
  interval is the previous one times 1.4, rounded, capped at 10000, so the intervals
  (without jitter) never decrease and never exceed 10000. When the first \<open>n - 1\<close>
  responses are not complete and the \<open>n\<close>-th one is, both pollers return its summary
  after exactly \<open>n\<close> requests (the scenario of the claim is \<open>n = 3\<close>).
  \<open>generateDailySummary\<close> waits the constant \<open>pollIntervalMs\<close> between requests.
\<close>

theorem pollForSummary_backoff:
  assumes "0 \<le> interval" and "interval \<le> 10000" and "\<forall>k. jitter k < 500"
  shows
    "(k < length (delays (pollForSummary server jitter interval maxAttempts)) \<longrightarrow>
        delays (pollForSummary server jitter interval maxAttempts) ! k
          = (next_interval ^^ k) interval + int (jitter (k + 1)) \<and>
        delays (pollForSummary server jitter interval maxAttempts) ! k \<le> 10499) \<and>
     (next_interval ^^ (k + 1)) interval
        = min 10000 \<lfloor>(of_int ((next_interval ^^ k) interval) :: rat) * (14 / 10) + 1 / 2\<rfloor> \<and>
     (next_interval ^^ k) interval \<le> (next_interval ^^ (k + 1)) interval \<and>
     (next_interval ^^ (k + 1)) interval \<le> 10000 \<and>
     (0 < n \<and> n \<le> maxAttempts \<and> (\<forall>j. 0 < j \<and> j < n \<longrightarrow> poll_try (server j) = None) \<and>
      poll_try (server n) = Some s \<longrightarrow>
        outcome (pollForSummary server jitter interval maxAttempts) = Returned (Some s) \<and>
        requests (pollForSummary server jitter interval maxAttempts) = n \<and>
        length (delays (pollForSummary server jitter interval maxAttempts)) = n - 1) \<and>
     (0 < n \<and> n \<le> maxAttempts \<and> (\<forall>j. 0 < j \<and> j < n \<longrightarrow> gen_poll (server j) = Pending) \<and>
      gen_poll (server n) = Done s \<longrightarrow>
        outcome (generateDailySummary (Response 200 b) server pollIntervalMs maxAttempts)
          = Returned (Some s) \<and>
        requests (generateDailySummary (Response 200 b) server pollIntervalMs maxAttempts) = n) \<and>
     (\<forall>d \<in> set (delays (generateDailySummary start server pollIntervalMs maxAttempts)).
        d = pollIntervalMs)"
proof (intro conjI impI)
  assume k: "k < length (delays (pollForSummary server jitter interval maxAttempts))"
  show nth: "delays (pollForSummary server jitter interval maxAttempts) ! k
          = (next_interval ^^ k) interval + int (jitter (k + 1))"
    using k by (rule pollForSummary_delay_nth)
  have "(next_interval ^^ k) interval \<le> 10000"
    using interval_at_bounds [OF assms(1,2)] by simp
  moreover have "int (jitter (k + 1)) \<le> 499"
    using assms(3) by (simp add: less_Suc_eq_le [symmetric])
  ultimately show "delays (pollForSummary server jitter interval maxAttempts) ! k \<le> 10499"
    using nth by simp
next
  show "(next_interval ^^ (k + 1)) interval
        = min 10000 \<lfloor>(of_int ((next_interval ^^ k) interval) :: rat) * (14 / 10) + 1 / 2\<rfloor>"
    by (simp add: next_interval_def)
next
  show "(next_interval ^^ k) interval \<le> (next_interval ^^ (k + 1)) interval"
    using interval_at_step [OF assms(1,2)] by blast
next
  show "(next_interval ^^ (k + 1)) interval \<le> 10000"
    using interval_at_step [OF assms(1,2)] by blast
next
  assume h: "0 < n \<and> n \<le> maxAttempts \<and>
      (\<forall>j. 0 < j \<and> j < n \<longrightarrow> poll_try (server j) = None) \<and> poll_try (server n) = Some s"
  have *: "outcome (pollForSummary server jitter interval maxAttempts) = Returned (Some s) \<and>
      requests (pollForSummary server jitter interval maxAttempts) = n \<and>
      length (delays (pollForSummary server jitter interval maxAttempts)) = n - 1"
    unfolding pollForSummary_def
    using h poll_loop_returns [of 0 n maxAttempts server s jitter interval "[]"] by simp
  from * show "outcome (pollForSummary server jitter interval maxAttempts) = Returned (Some s)"
    by simp
  from * show "requests (pollForSummary server jitter interval maxAttempts) = n" by simp
  from * show "length (delays (pollForSummary server jitter interval maxAttempts)) = n - 1"
    by simp
next
  assume h: "0 < n \<and> n \<le> maxAttempts \<and>
      (\<forall>j. 0 < j \<and> j < n \<longrightarrow> gen_poll (server j) = Pending) \<and> gen_poll (server n) = Done s"
  have *: "outcome (gen_loop server pollIntervalMs maxAttempts 0 []) = Returned (Some s) \<and>
      requests (gen_loop server pollIntervalMs maxAttempts 0 []) = n"
    using h by (intro gen_loop_returns) simp_all
  from * show "outcome (generateDailySummary (Response 200 b) server pollIntervalMs maxAttempts)
          = Returned (Some s)"
    by (simp add: generateDailySummary_def)
  from * show "requests (generateDailySummary (Response 200 b) server pollIntervalMs maxAttempts) = n"
    by (simp add: generateDailySummary_def)
next
  obtain m where "delays (gen_loop server pollIntervalMs maxAttempts 0 [])
      = replicate m pollIntervalMs"
    using gen_loop_delays [of server pollIntervalMs maxAttempts 0 "[]"] by auto
  then show "\<forall>d \<in> set (delays (generateDailySummary start server pollIntervalMs maxAttempts)).
        d = pollIntervalMs"
    by (auto simp: generateDailySummary_def split: poll.splits)
qed

text \<open>C7, witness: pending, pending, complete, with the call-site interval 1200.\<close>

theorem pollForSummary_backoff_witness:
  "jitter_high_low 1 < 500 \<and>
   delays (pollForSummary complete_at_third jitter_high_low 1200 25) ! 1 = 1680 \<and>
   (next_interval ^^ 1) 1200 = 1680 \<and> (next_interval ^^ 2) 1200 = 2352 \<and>
   outcome (pollForSummary complete_at_third jitter_high_low 1200 25) = Returned (Some ''summary'') \<and>
   requests (pollForSummary complete_at_third jitter_high_low 1200 25) = 3 \<and>
   requests (generateDailySummary pending complete_at_third 1500 30) = 3"
proof -
  have run: "pollForSummary complete_at_third jitter_high_low 1200 25
      = \<lparr> outcome = Returned (Some ''summary''), requests = 3, delays = [1699, 1680] \<rparr>"
    by code_simp
  have run2: "requests (generateDailySummary pending complete_at_third 1500 30) = 3"
    by code_simp
  have j: "\<forall>k. jitter_high_low k < 500" by (simp add: jitter_high_low_def)
  have i: "(next_interval ^^ 1) 1200 = 1680 \<and> (next_interval ^^ 2) 1200 = 2352"
    by (simp add: numeral_2_eq_2 next_interval_int)
  show ?thesis
    using pollForSummary_backoff [of 1200 jitter_high_low 1 complete_at_third 25 3 "''summary''"
        "JsonObj (Some ''pending'') None" 1500 pending, OF _ _ j] run run2 i
    by (simp add: jitter_high_low_def)
qed

text \<open>
  C7 (as stated, refuted): with the interval 1200 ms of the call site in
  ActivityGraph.jsx, jitter draws 499 and 0, and a server that is pending twice and then
  complete, the two delays are 1699 ms and 1680 ms: the delays decrease. The delays of
  \<open>generateDailySummary\<close> are constant, with no factor and no jitter.
\<close>

theorem pollForSummary_delays_counterexample:
  "delays (pollForSummary complete_at_third jitter_high_low 1200 25) = [1699, 1680] \<and>
   \<not> sorted (delays (pollForSummary complete_at_third jitter_high_low 1200 25)) \<and>
   delays (generateDailySummary pending complete_at_third 1500 30) = [1500, 1500]"
  by code_simp

text \<open>
  The two pollers differ on a failed status request: \<open>pollForSummary\<close> catches it and
  goes on, \<open>generateDailySummary\<close> leaves the loop and returns \<open>null\<close> at once.
\<close>

lemma failed_poll_evaluated:
  "pollForSummary failing_polls no_jitter 1500 4
     = \<lparr> outcome = Thrown ''Timed out waiting for summary'', requests = 4,
         delays = [1500, 2100, 2940, 4116] \<rparr> \<and>
   generateDailySummary pending failing_polls 1500 4
     = \<lparr> outcome = Returned None, requests = 1, delays = [] \<rparr>"
  by code_simp

section \<open>Properties of the streak computation\<close>


















section \<open>Properties of the daily totals\<close>

















section \<open>Properties of the reconciliation matcher\<close>





lemma match_recent_Some:
  assumes "match_recent logs = Some m"
  shows "m \<in> set logs \<and> is_meal m \<and> (\<forall>l \<in> set logs. is_meal l \<longrightarrow> ts l \<le> ts m)"
proof -
  let ?ms = "sort_key (\<lambda>l. - ts l) (filter is_meal logs)"
  from assms obtain rest where ms: "?ms = m # rest"
    by (auto simp: match_recent_def Let_def split: list.splits)
  have "m \<in> set ?ms" using ms by simp
  then have mem: "m \<in> set logs \<and> is_meal m" by simp
  have "sorted (map (\<lambda>l. - ts l) ?ms)" by (rule sorted_sort_key)
  then have "\<forall>l \<in> set rest. - ts m \<le> - ts l" using ms by simp
  then have "\<forall>l \<in> set ?ms. ts l \<le> ts m" using ms by auto
  then have "\<forall>l \<in> set logs. is_meal l \<longrightarrow> ts l \<le> ts m" by simp
  with mem show ?thesis by blast
qed

lemma match_recent_None: "match_recent logs = None \<Longrightarrow> \<forall>l \<in> set logs. \<not> is_meal l"
proof -
  assume "match_recent logs = None"
  then have "sort_key (\<lambda>l. - ts l) (filter is_meal logs) = []"
    by (auto simp: match_recent_def Let_def split: list.splits)
  then have "set (filter is_meal logs) = {}" by (metis set_sort list.set(1))
  then show ?thesis by auto
qed



lemma updateDailyLog_length [simp]: "length (updateDailyLog store k c m p) = length store"
  by (simp add: updateDailyLog_def)

lemma apply_result_length [simp]: "length (apply_result sn logs store r) = length store"
  by (simp add: apply_result_def split: option.splits prod.splits)

lemma apply_result_nth:
  "i < length store \<Longrightarrow>
   apply_result sn logs store r ! i
     = (if selects logs r (entry_id (store ! i)) then write_result sn r (store ! i) else store ! i)"
  by (auto simp: apply_result_def selects_def updateDailyLog_def write_result_def
      split: option.splits prod.splits)

lemma write_result_id [simp]: "entry_id (write_result sn r l) = entry_id l"
  by (simp add: write_result_def)

lemma write_result_twice [simp]: "write_result sn r' (write_result sn r l) = write_result sn r' l"
  by (simp add: write_result_def)

lemma same_but_nutrition_refl [simp]: "same_but_nutrition l l"
  by (simp add: same_but_nutrition_def)

lemma same_but_nutrition_write [simp]: "same_but_nutrition l (write_result sn r l)"
  by (simp add: same_but_nutrition_def write_result_def)

lemma reconcile_length [simp]: "length (reconcile sn logs store results) = length store"
  by (induction results arbitrary: store) simp_all

lemma last_write_Cons:
  "last_write sn logs (r # rs) l
     = last_write sn logs rs (if selects logs r (entry_id l) then write_result sn r l else l)"
  by (auto simp: last_write_def split: list.splits)

lemma reconcile_nth:
  "i < length store \<Longrightarrow>
   reconcile sn logs store results ! i = last_write sn logs results (store ! i)"
proof (induction results arbitrary: store)
  case Nil
  then show ?case by (simp add: last_write_def)
next
  case (Cons r rs)
  have "reconcile sn logs (apply_result sn logs store r) rs ! i
      = last_write sn logs rs (apply_result sn logs store r ! i)"
    using Cons.prems by (intro Cons.IH) simp
  then show ?case
    using Cons.prems by (simp add: apply_result_nth last_write_Cons)
qed







lemma apply_result_changed:
  "i < length store \<Longrightarrow> apply_result sn logs store r ! i \<noteq> store ! i \<Longrightarrow>
   selects logs r (entry_id (store ! i))"
  by (auto simp: apply_result_nth split: if_splits)

lemma selects_same_id: "selects logs r k \<Longrightarrow> selects logs r k' \<Longrightarrow> k = k'"
  by (auto simp: selects_def split: option.splits prod.splits)

text \<open>
  C3 (as the code behaves): every result is matched against the same list, fetched once
  before the loop, so an entry can be selected by several results of a pass; after the
  pass each entry holds the values of the last result that selected it, and is unchanged
  if none did. One result changes at most one entry of a store with distinct ids.
\<close>

theorem reconcile_last_write:
  "(i < length store \<longrightarrow>
      analyzeItemsBackend sn store results ! i
        = last_write sn (getDailyLogs store) results (store ! i)) \<and>
   (distinct (map entry_id store) \<and> i < length store \<and> j < length store \<and>
    apply_result sn logs store r ! i \<noteq> store ! i \<and>
    apply_result sn logs store r ! j \<noteq> store ! j \<longrightarrow> i = j)"
proof (intro conjI impI)
  assume "i < length store"
  then show "analyzeItemsBackend sn store results ! i
        = last_write sn (getDailyLogs store) results (store ! i)"
    by (simp add: analyzeItemsBackend_def reconcile_nth)
next
  assume h: "distinct (map entry_id store) \<and> i < length store \<and> j < length store \<and>
    apply_result sn logs store r ! i \<noteq> store ! i \<and>
    apply_result sn logs store r ! j \<noteq> store ! j"
  then have "selects logs r (entry_id (store ! i))" "selects logs r (entry_id (store ! j))"
    using apply_result_changed by blast+
  then have "entry_id (store ! i) = entry_id (store ! j)" by (rule selects_same_id)
  then show "i = j"
    using h nth_eq_iff_index_eq [of "map entry_id store" i j] by simp
qed

text \<open>
  C3, witness: two results for the same meal; the second one's values remain.
\<close>

theorem reconcile_last_write_witness:
  "distinct (map entry_id two_meals) \<and>
   analyzeItemsBackend parse_none two_meals
       [result None ''apple pie'' 200, result None ''Apple Pie'' 300] ! 0
     = write_result parse_none (result None ''Apple Pie'' 300) (two_meals ! 0) \<and>
   apply_result parse_none (getDailyLogs two_meals) two_meals (result None ''apple pie'' 200) ! 1
     = two_meals ! 1"
proof -
  have d: "distinct (map entry_id two_meals)" by code_simp
  have len: "(0::nat) < length two_meals \<and> (1::nat) < length two_meals" by code_simp
  have lw: "last_write parse_none (getDailyLogs two_meals)
        [result None ''apple pie'' 200, result None ''Apple Pie'' 300] (two_meals ! 0)
      = write_result parse_none (result None ''Apple Pie'' 300) (two_meals ! 0)"
    by code_simp
  have ch: "apply_result parse_none (getDailyLogs two_meals) two_meals
        (result None ''apple pie'' 200) ! 0 \<noteq> two_meals ! 0"
    by code_simp
  show ?thesis
    using reconcile_last_write [of 0 two_meals parse_none
        "[result None ''apple pie'' 200, result None ''Apple Pie'' 300]" 1
        "getDailyLogs two_meals" "result None ''apple pie'' 200"] d len lw ch
    by auto
qed

text \<open>
  C3 (as stated, refuted): two results of one pass select the same entry, which is
  updated twice (200 kcal, then 300 kcal); the entry is not removed from the pool after
  the first result.
\<close>

theorem selected_twice_counterexample:
  "find_match (getDailyLogs two_meals) (result None ''apple pie'' 200)
     = Some (Exact, two_meals ! 0) \<and>
   find_match (getDailyLogs two_meals) (result None ''Apple Pie'' 300)
     = Some (Exact, two_meals ! 0) \<and>
   map calories (apply_result parse_none (getDailyLogs two_meals) two_meals
       (result None ''apple pie'' 200)) = [JNum (Fin 200), JUndefined] \<and>
   map calories (analyzeItemsBackend parse_none two_meals
       [result None ''apple pie'' 200, result None ''Apple Pie'' 300])
     = [JNum (Fin 300), JUndefined]"
  by code_simp

text \<open>
  C5 (as the code behaves): when the exact, the positional and the substring rule find
  nothing and the fetched list holds a meal entry, the matcher selects, by the
  most-recent rule, a meal entry of the list whose timestamp is at least that of every
  meal entry of the list, whatever their dates; if it has an id, the update is written to
  it, so the result is not dropped.
\<close>

theorem most_recent_fallback:
  "match_exact logs (analyzedName_of r) = None \<and>
   match_positional logs (analyzedId_of r) = None \<and>
   match_substring logs (analyzedName_of r) = None \<and>
   l \<in> set logs \<and> is_meal l \<longrightarrow>
     (\<exists>m. find_match logs r = Some (MostRecent, m) \<and> m \<in> set logs \<and> is_meal m \<and>
          ts l \<le> ts m \<and>
          (entry_id m \<noteq> [] \<longrightarrow>
             apply_result sn logs store r
               = updateDailyLog store (entry_id m)
                   (obj_get (fullMacros sn r) ''calories_kcal'')
                   (JObj (fullMacros sn r)) (new_provenance r)))"
proof
  assume h: "match_exact logs (analyzedName_of r) = None \<and>
   match_positional logs (analyzedId_of r) = None \<and>
   match_substring logs (analyzedName_of r) = None \<and>
   l \<in> set logs \<and> is_meal l"
  then obtain m where m: "match_recent logs = Some m"
    using match_recent_None [of logs] by (cases "match_recent logs") auto
  have fm: "find_match logs r = Some (MostRecent, m)"
    using h m by (simp add: find_match_def)
  have props: "m \<in> set logs \<and> is_meal m \<and> (\<forall>l \<in> set logs. is_meal l \<longrightarrow> ts l \<le> ts m)"
    using m by (rule match_recent_Some)
  then have "ts l \<le> ts m" using h by blast
  moreover have "entry_id m \<noteq> [] \<longrightarrow>
             apply_result sn logs store r
               = updateDailyLog store (entry_id m)
                   (obj_get (fullMacros sn r) ''calories_kcal'')
                   (JObj (fullMacros sn r)) (new_provenance r)"
    using fm by (simp add: apply_result_def)
  ultimately show "\<exists>m. find_match logs r = Some (MostRecent, m) \<and> m \<in> set logs \<and> is_meal m \<and>
          ts l \<le> ts m \<and>
          (entry_id m \<noteq> [] \<longrightarrow>
             apply_result sn logs store r
               = updateDailyLog store (entry_id m)
                   (obj_get (fullMacros sn r) ''calories_kcal'')
                   (JObj (fullMacros sn r)) (new_provenance r))"
    using fm props by blast
qed

text \<open>
  C5, witness: an unmatched result goes to the later of two meals.
\<close>

theorem most_recent_fallback_witness:
  "match_exact (getDailyLogs two_meals) (analyzedName_of (result None ''Xyz'' 100)) = None \<and>
   match_positional (getDailyLogs two_meals) (analyzedId_of (result None ''Xyz'' 100)) = None \<and>
   match_substring (getDailyLogs two_meals) (analyzedName_of (result None ''Xyz'' 100)) = None \<and>
   is_meal (two_meals ! 0) \<and>
   find_match (getDailyLogs two_meals) (result None ''Xyz'' 100)
     = Some (MostRecent, two_meals ! 1) \<and>
   ts (two_meals ! 0) \<le> ts (two_meals ! 1)"
proof -
  have pre: "match_exact (getDailyLogs two_meals) (analyzedName_of (result None ''Xyz'' 100)) = None \<and>
      match_positional (getDailyLogs two_meals) (analyzedId_of (result None ''Xyz'' 100)) = None \<and>
      match_substring (getDailyLogs two_meals) (analyzedName_of (result None ''Xyz'' 100)) = None \<and>
      two_meals ! 0 \<in> set (getDailyLogs two_meals) \<and> is_meal (two_meals ! 0)"
    by code_simp
  have fm: "find_match (getDailyLogs two_meals) (result None ''Xyz'' 100)
     = Some (MostRecent, two_meals ! 1)"
    by code_simp
  show ?thesis
    using most_recent_fallback [of "getDailyLogs two_meals" "result None ''Xyz'' 100"
        "two_meals ! 0" parse_none two_meals] pre fm
    by auto
qed

text \<open>
  C5 (as stated, refuted): the job is for 2024-01-02, on which a meal was logged at
  23:59:50; a meal logged 30 seconds later is dated 2024-01-03. The unmatched result is
  written to the entry of 2024-01-03, not to the most recent entry of the job's day.
\<close>

theorem most_recent_other_day_counterexample:
  "find_match (getDailyLogs two_day_store) (result None ''Xyz'' 100)
     = Some (MostRecent, two_day_store ! 1) \<and>
   date (two_day_store ! 1) = Some (day_of_key 2024 1 3) \<and>
   is_meal (two_day_store ! 0) \<and>
   date (two_day_store ! 0) = Some (day_of_key 2024 1 2) \<and>
   map calories (analyzeItemsBackend parse_none two_day_store [result None ''Xyz'' 100])
     = [JUndefined, JNum (Fin 100)]"
  by code_simp


text \<open>
  The substring rule has no test of the category: a result named "water" selects the
  water entry, and the pass writes the analysed calories to it.
\<close>

lemma substring_selects_non_meal:
  "find_match (getDailyLogs override_store) (result None ''water'' 80)
     = Some (Substring, override_store ! 1) \<and>
   category (override_store ! 1) = Some ''water'' \<and>
   calories (analyzeItemsBackend parse_none override_store [result None ''water'' 80] ! 1)
     = JNum (Fin 80)"
  by code_simp

end
